theory Spec2Isabelle
  imports Main
begin

section \<open>Data model of the main-thread API (src/src/API.ts)\<close>

text \<open>
  Job identifiers are typed \<^verbatim>\<open>string | number\<close> in the source (the key type of
  \<^verbatim>\<open>decryptionConfigs\<close>, the parameter of \<^verbatim>\<open>trackJobCompletion\<close>), and a file
  that never went through a job has no \<^verbatim>\<open>id\<close> property at all. Numbers are
  modelled as mathematical naturals (the counter starts at 0 and is only
  incremented; doubles are exact below \<open>2^53\<close>).
\<close>

datatype jid = Undefined | Num nat | Str string

text \<open>JavaScript truthiness of an id: \<^verbatim>\<open>undefined\<close>, \<^verbatim>\<open>0\<close> and \<^verbatim>\<open>''\<close> are falsy.\<close>

fun truthy_id :: "jid \<Rightarrow> bool" where
  "truthy_id Undefined = False"
| "truthy_id (Num n) = (n \<noteq> 0)"
| "truthy_id (Str s) = (s \<noteq> [])"

text \<open>
  What a stream delivers: bytes held locally, or whatever arrives through the
  remote stream object with the given number.
\<close>

datatype content = Bytes string | Remote nat

text \<open>
  The \<^verbatim>\<open>stream\<close> property of a file: a WHATWG \<^verbatim>\<open>ReadableStream\<close>, an
  \<^verbatim>\<open>ArrayBuffer\<close>, or anything else that \<^verbatim>\<open>intoStreamOnlyOnce\<close> accepts.
\<close>

datatype stream = ReadableStream content | ArrayBuffer content | OtherStream content

fun instanceof_ArrayBuffer :: "stream \<Rightarrow> bool" where
  "instanceof_ArrayBuffer (ArrayBuffer c) = True"
| "instanceof_ArrayBuffer s = False"

text \<open>
  \<^verbatim>\<open>s instanceof ReadableStream ? s : toWebReadableStream(intoStreamOnlyOnce(s))\<close>
\<close>

fun toReadable :: "stream \<Rightarrow> stream" where
  "toReadable (ReadableStream c) = ReadableStream c"
| "toReadable (ArrayBuffer c) = ReadableStream c"
| "toReadable (OtherStream c) = ReadableStream c"

text \<open>
  \<^verbatim>\<open>PenumbraFile\<close> / \<^verbatim>\<open>PenumbraEncryptedFile\<close>. Optional properties are
  options; \<open>key\<close> is the property that spreading a non-null
  \<^verbatim>\<open>PenumbraEncryptionOptions\<close> into a file adds.
\<close>

record PenumbraFile =
  id_f :: jid
  stream :: stream
  size_f :: "int option"
  mimetype :: "string option"
  filePrefix :: "string option"
  path :: "string option"
  key :: "string option"

record PenumbraDecryptionInfo =
  d_key :: string
  iv :: string
  authTag :: string

record RemoteResource =
  url :: "string option"
  requestInit :: "string option"
  filePrefix_r :: "string option"
  mimetype_r :: "string option"
  path_r :: "string option"
  decryptionOptions :: "PenumbraDecryptionInfo option"

text \<open>
  What \<^verbatim>\<open>getJob\<close> returns for one resource: \<^verbatim>\<open>{ stream, path, ...resource }\<close>.
  On the buffered path no \<^verbatim>\<open>path\<close> is derived, so the property is the
  resource's own, if any.
\<close>

record FetchedFile =
  stream_g :: stream
  path_g :: "string option"
  resource_g :: RemoteResource

datatype api = Get | Encrypt | Decrypt

datatype error =
    CalledWithoutArguments api
  | OnlySupportsReadableStreams
  | UnableToDetermineFileSize api
  | TooLargeWithoutWritableStreams api
  | RemoteResourceMissingURL

text \<open>A call sent to the worker thread through Comlink.\<close>

datatype worker_call =
    CallGet "nat list" "RemoteResource list"
  | CallEncrypt "string option" "jid list" "int list" "nat list" "nat list"
  | CallDecrypt PenumbraDecryptionInfo "jid list" "int list" "nat list" "nat list"

text \<open>Work done in the calling context on the buffered path.\<close>

datatype inline_work =
    FetchAndDecrypt RemoteResource
  | EncryptFile "string option" PenumbraFile "int option"
  | DecryptFile PenumbraDecryptionInfo PenumbraFile "int option"

text \<open>
  The mutable state the batch jobs read and write: the module-level counter
  \<^verbatim>\<open>jobID\<close>, the number of \<^verbatim>\<open>RemoteReadableStream\<close> / \<^verbatim>\<open>RemoteWritableStream\<close>
  objects constructed so far (each is numbered by its construction order), the
  calls dispatched to the worker, the local pipes started (source stream,
  number of the remote writable stream), and the work done inline.
\<close>

record state =
  jobID :: nat
  remoteStreams :: nat
  dispatched :: "worker_call list"
  piped :: "(stream \<times> nat) list"
  processed :: "inline_work list"

definition MAX_ALLOWED_SIZE_MAIN_THREAD :: int where
  "MAX_ALLOWED_SIZE_MAIN_THREAD = 16 * 1024 * 1024"

text \<open>Truthiness of \<^verbatim>\<open>size\<close>: \<^verbatim>\<open>undefined\<close> and \<^verbatim>\<open>0\<close> are falsy.\<close>

fun truthy_size :: "int option \<Rightarrow> bool" where
  "truthy_size None = False"
| "truthy_size (Some n) = (n \<noteq> 0)"

text \<open>The destructuring default \<^verbatim>\<open>({ size = 0 })\<close>.\<close>

fun size_or_0 :: "int option \<Rightarrow> int" where
  "size_or_0 None = 0"
| "size_or_0 (Some n) = n"

section \<open>encryptJob\<close>

text \<open>
  The \<^verbatim>\<open>files.forEach\<close> of lines 297-306: for each file in turn the counter
  is read and incremented and the id stored in the file, and only then is the
  size tested. The pair returned is the counter afterwards and either the
  error thrown or the files with their ids, the ids and the sizes.
\<close>

fun encrypt_collect ::
  "nat \<Rightarrow> PenumbraFile list \<Rightarrow> nat \<times> (error + (PenumbraFile \<times> jid \<times> int) list)" where
  "encrypt_collect j [] = (j, Inr [])"
| "encrypt_collect j (file # files) =
     (let file' = file\<lparr>id_f := Num j\<rparr> in
      if truthy_size (size_f file)
      then (case encrypt_collect (j + 1) files of
              (j', Inl e) \<Rightarrow> (j', Inl e)
            | (j', Inr rest) \<Rightarrow> (j', Inr ((file', Num j, size_or_0 (size_f file)) # rest)))
      else (j + 1, Inl (UnableToDetermineFileSize Encrypt)))"

text \<open>
  Lines 370-379: the running total is compared with the ceiling after each
  addition.
\<close>

fun total_exceeds :: "int \<Rightarrow> PenumbraFile list \<Rightarrow> bool" where
  "total_exceeds totalSize [] = False"
| "total_exceeds totalSize (file # files) =
     (let totalSize' = totalSize + size_or_0 (size_f file) in
      if totalSize' > MAX_ALLOWED_SIZE_MAIN_THREAD then True
      else total_exceeds totalSize' files)"

text \<open>\<^verbatim>\<open>{ ..., ...options }\<close>: a null options object adds nothing.\<close>

fun spread_options :: "string option \<Rightarrow> PenumbraFile \<Rightarrow> PenumbraFile" where
  "spread_options None file = file"
| "spread_options (Some k) file = file\<lparr>key := Some k\<rparr>"

text \<open>
  \<open>writableStreamsSupported\<close> is the module constant
  \<^verbatim>\<open>'WritableStream' in self\<close>, a parameter here. \<^verbatim>\<open>getWorker()\<close> and the
  dynamic imports are taken to resolve. With \<open>n\<close> files and \<open>c\<close> remote
  stream objects constructed before, the \<open>n\<close> remote readable streams are
  numbered \<open>c ..< c + n\<close> and the \<open>n\<close> remote writable streams
  \<open>c + n ..< c + 2 * n\<close>; a port is named by the number of its stream.
  On the buffered path the returned object is \<^verbatim>\<open>{ stream, ...file, ...options }\<close>,
  where the file's own \<^verbatim>\<open>stream\<close> property overrides the encrypted one.
\<close>

definition encryptJob ::
  "bool \<Rightarrow> string option \<Rightarrow> PenumbraFile list \<Rightarrow> state \<Rightarrow> (error + PenumbraFile list) \<times> state" where
  "encryptJob writableStreamsSupported options files st =
     (if files = [] then (Inl (CalledWithoutArguments Encrypt), st)
      else if list_ex (\<lambda>file. instanceof_ArrayBuffer (stream file)) files
      then (Inl OnlySupportsReadableStreams, st)
      else
        (case encrypt_collect (jobID st) files of
           (j, Inl e) \<Rightarrow> (Inl e, st\<lparr>jobID := j\<rparr>)
         | (j, Inr tagged) \<Rightarrow>
            (let st1 = st\<lparr>jobID := j\<rparr>;
                 n = length files;
                 c = remoteStreams st1
             in
             if writableStreamsSupported then
               (let ids = map (\<lambda>(file, i, s). i) tagged;
                    sizes = map (\<lambda>(file, i, s). s) tagged;
                    readablePorts = [c + n ..< c + 2 * n];
                    writablePorts = [c ..< c + n];
                    pipes = map (\<lambda>(k, file, i, s). (toReadable (stream file), c + n + k))
                              (enumerate 0 tagged);
                    readables = map (\<lambda>(k, file, i, s).
                                  file\<lparr>stream := ReadableStream (Remote (c + k)),
                                       size_f := Some s, id_f := i\<rparr>)
                              (enumerate 0 tagged)
                in (Inr readables,
                    st1\<lparr>remoteStreams := c + 2 * n,
                        dispatched := dispatched st1 @
                          [CallEncrypt options ids sizes readablePorts writablePorts],
                        piped := piped st1 @ pipes\<rparr>))
             else
               (let filesWithIds = map (\<lambda>(file, i, s). file) tagged in
                if total_exceeds 0 filesWithIds
                then (Inl (TooLargeWithoutWritableStreams Encrypt), st1)
                else (Inr (map (spread_options options) filesWithIds),
                      st1\<lparr>processed := processed st1 @
                            map (\<lambda>file. EncryptFile options file (size_f file)) filesWithIds\<rparr>)))))"

section \<open>decryptJob\<close>

text \<open>
  Lines 441-450: \<^verbatim>\<open>file.id = file.id || jobID++\<close>, then the size test. The
  counter is advanced only when the id the file carries is falsy.
\<close>

fun decrypt_collect ::
  "nat \<Rightarrow> PenumbraFile list \<Rightarrow> nat \<times> (error + (PenumbraFile \<times> jid \<times> int) list)" where
  "decrypt_collect j [] = (j, Inr [])"
| "decrypt_collect j (file # files) =
     (let i = (if truthy_id (id_f file) then id_f file else Num j);
          j1 = (if truthy_id (id_f file) then j else j + 1);
          file' = file\<lparr>id_f := i\<rparr> in
      if truthy_size (size_f file)
      then (case decrypt_collect j1 files of
              (j', Inl e) \<Rightarrow> (j', Inl e)
            | (j', Inr rest) \<Rightarrow> (j', Inr ((file', i, size_or_0 (size_f file)) # rest)))
      else (j1, Inl (UnableToDetermineFileSize Decrypt)))"

text \<open>
  The function \<^verbatim>\<open>decrypt\<close> of \<^verbatim>\<open>./decrypt\<close> is not part of the sources at
  hand; it is the parameter \<open>decryptFile\<close>. On the streaming path the remote
  stream objects are constructed before the ids and sizes are collected.
\<close>

definition decryptJob ::
  "bool \<Rightarrow> (PenumbraDecryptionInfo \<Rightarrow> PenumbraFile \<Rightarrow> int option \<Rightarrow> PenumbraFile) \<Rightarrow>
   PenumbraDecryptionInfo \<Rightarrow> PenumbraFile list \<Rightarrow> state \<Rightarrow> (error + PenumbraFile list) \<times> state" where
  "decryptJob writableStreamsSupported decryptFile options files st =
     (if files = [] then (Inl (CalledWithoutArguments Decrypt), st)
      else if writableStreamsSupported then
        (let n = length files;
             c = remoteStreams st;
             st1 = st\<lparr>remoteStreams := c + 2 * n\<rparr>
         in
         case decrypt_collect (jobID st1) files of
           (j, Inl e) \<Rightarrow> (Inl e, st1\<lparr>jobID := j\<rparr>)
         | (j, Inr tagged) \<Rightarrow>
            (let ids = map (\<lambda>(file, i, s). i) tagged;
                 sizes = map (\<lambda>(file, i, s). s) tagged;
                 readablePorts = [c + n ..< c + 2 * n];
                 writablePorts = [c ..< c + n];
                 pipes = map (\<lambda>(k, file, i, s). (toReadable (stream file), c + n + k))
                           (enumerate 0 tagged);
                 readables = map (\<lambda>(k, file, i, s).
                               file\<lparr>stream := ReadableStream (Remote (c + k)),
                                    size_f := Some s, id_f := i\<rparr>)
                           (enumerate 0 tagged)
             in (Inr readables,
                 st1\<lparr>jobID := j,
                     dispatched := dispatched st1 @
                       [CallDecrypt options ids sizes readablePorts writablePorts],
                     piped := piped st1 @ pipes\<rparr>)))
      else if list_ex (\<lambda>file. size_or_0 (size_f file) > MAX_ALLOWED_SIZE_MAIN_THREAD) files
      then (Inl (TooLargeWithoutWritableStreams Decrypt), st)
      else (Inr (map (\<lambda>file. decryptFile options file (size_f file)) files),
            st\<lparr>processed := processed st @
                  map (\<lambda>file. DecryptFile options file (size_f file)) files\<rparr>))"

section \<open>getJob\<close>

text \<open>
  \<^verbatim>\<open>resolver.pathname\<close> after \<^verbatim>\<open>resolver.href = url\<close> is the browser's URL
  parser, the parameter \<open>pathname\<close> (applied to the \<^verbatim>\<open>url\<close> property, absent
  or not); \<^verbatim>\<open>fetchAndDecrypt\<close> of \<^verbatim>\<open>./fetchAndDecrypt\<close> is the parameter
  \<open>fetchAndDecrypt\<close>, giving the bytes fetched. On the streaming path the main
  thread does not look for the \<^verbatim>\<open>url\<close> property; on the buffered path every
  resource's callback is started by \<^verbatim>\<open>resources.map\<close>, those without a
  \<^verbatim>\<open>url\<close> reject, and \<^verbatim>\<open>Promise.all\<close> rejects when one of them does.
\<close>

definition getJob ::
  "bool \<Rightarrow> (string option \<Rightarrow> string) \<Rightarrow> (RemoteResource \<Rightarrow> content) \<Rightarrow>
   RemoteResource list \<Rightarrow> state \<Rightarrow> (error + FetchedFile list) \<times> state" where
  "getJob writableStreamsSupported pathname fetchAndDecrypt resources st =
     (if resources = [] then (Inl (CalledWithoutArguments Get), st)
      else if writableStreamsSupported then
        (let n = length resources;
             c = remoteStreams st;
             readables = map (\<lambda>(k, resource).
                            \<lparr>stream_g = ReadableStream (Remote (c + k)),
                             path_g = (case path_r resource of
                                         Some p \<Rightarrow> Some p
                                       | None \<Rightarrow> Some (pathname (url resource))),
                             resource_g = resource\<rparr>)
                          (enumerate 0 resources);
             writablePorts = [c ..< c + n]
         in (Inr readables,
             st\<lparr>remoteStreams := c + n,
                dispatched := dispatched st @ [CallGet writablePorts resources]\<rparr>))
      else
        (let st1 = st\<lparr>processed := processed st @
                        map FetchAndDecrypt (filter (\<lambda>resource. url resource \<noteq> None) resources)\<rparr>
         in
         if list_ex (\<lambda>resource. url resource = None) resources
         then (Inl RemoteResourceMissingURL, st1)
         else (Inr (map (\<lambda>resource.
                          \<lparr>stream_g = ArrayBuffer (fetchAndDecrypt resource),
                           path_g = path_r resource,
                           resource_g = resource\<rparr>) resources),
               st1)))"

section \<open>The public operations get, encrypt and decrypt\<close>

text \<open>
  Each public operation is
  \<^verbatim>\<open>Promise.all(items.map(async (item) => (await job(item))[0]))\<close>:
  one batch job per item, each with a one-item batch. \<^verbatim>\<open>map\<close> starts the
  jobs in input order, and a job that rejects does not stop the later ones
  from starting; the jobs' effects on the state are taken in input order.
  \<^verbatim>\<open>rs[0]\<close> of an empty array is \<^verbatim>\<open>undefined\<close>, here \<open>None\<close>.
\<close>

fun index0 :: "'a list \<Rightarrow> 'a option" where
  "index0 [] = None"
| "index0 (r # rs) = Some r"

definition single_job ::
  "('x list \<Rightarrow> state \<Rightarrow> (error + 'r list) \<times> state) \<Rightarrow> 'x \<Rightarrow> state \<Rightarrow> (error + 'r option) \<times> state" where
  "single_job job item st =
     (case job [item] st of
        (Inl e, st') \<Rightarrow> (Inl e, st')
      | (Inr rs, st') \<Rightarrow> (Inr (index0 rs), st'))"

fun run_all ::
  "(state \<Rightarrow> (error + 'r) \<times> state) list \<Rightarrow> state \<Rightarrow> (error + 'r) list \<times> state" where
  "run_all [] st = ([], st)"
| "run_all (p # ps) st =
     (case p st of (r, st1) \<Rightarrow>
        (case run_all ps st1 of (rs, st2) \<Rightarrow> (r # rs, st2)))"

text \<open>
  \<^verbatim>\<open>Promise.all\<close>: the values in input order when every promise fulfils,
  otherwise the first rejection. Every rejection of the batch jobs happens at
  the same point of each job, so the first to reject is the first in input
  order.
\<close>

fun Promise_all :: "(error + 'r) list \<Rightarrow> error + 'r list" where
  "Promise_all [] = Inr []"
| "Promise_all (Inl e # rs) = Inl e"
| "Promise_all (Inr v # rs) =
     (case Promise_all rs of Inl e \<Rightarrow> Inl e | Inr vs \<Rightarrow> Inr (v # vs))"

definition api_call ::
  "('x list \<Rightarrow> state \<Rightarrow> (error + 'r list) \<times> state) \<Rightarrow> 'x list \<Rightarrow> state \<Rightarrow>
   (error + 'r option list) \<times> state" where
  "api_call job items st =
     (case run_all (map (single_job job) items) st of
        (rs, st') \<Rightarrow> (Promise_all rs, st'))"

definition get ::
  "bool \<Rightarrow> (string option \<Rightarrow> string) \<Rightarrow> (RemoteResource \<Rightarrow> content) \<Rightarrow>
   RemoteResource list \<Rightarrow> state \<Rightarrow> (error + FetchedFile option list) \<times> state" where
  "get writableStreamsSupported pathname fetchAndDecrypt resources st =
     api_call (getJob writableStreamsSupported pathname fetchAndDecrypt) resources st"

definition encrypt ::
  "bool \<Rightarrow> string option \<Rightarrow> PenumbraFile list \<Rightarrow> state \<Rightarrow>
   (error + PenumbraFile option list) \<times> state" where
  "encrypt writableStreamsSupported options files st =
     api_call (encryptJob writableStreamsSupported options) files st"

definition decrypt ::
  "bool \<Rightarrow> (PenumbraDecryptionInfo \<Rightarrow> PenumbraFile \<Rightarrow> int option \<Rightarrow> PenumbraFile) \<Rightarrow>
   PenumbraDecryptionInfo \<Rightarrow> PenumbraFile list \<Rightarrow> state \<Rightarrow>
   (error + PenumbraFile option list) \<times> state" where
  "decrypt writableStreamsSupported decryptFile options files st =
     api_call (decryptJob writableStreamsSupported decryptFile options) files st"

section \<open>Completion tracking: trackJobCompletion and getDecryptionInfo\<close>

text \<open>
  The module-level map \<^verbatim>\<open>decryptionConfigs\<close>, the listeners registered for
  \<^verbatim>\<open>'penumbra-complete'\<close> on \<^verbatim>\<open>self\<close> by \<^verbatim>\<open>trackJobCompletion\<close> (each with
  the promise it completes and the id it searches for, in registration
  order), the number of promises created, and the value each completed
  promise was resolved with.
\<close>

record registry =
  decryptionConfigs :: "jid \<Rightarrow> PenumbraDecryptionInfo option"
  listeners :: "(nat \<times> jid) list"
  promises :: nat
  settled :: "nat \<Rightarrow> PenumbraDecryptionInfo option"

datatype 'a promise = Resolved 'a | Pending nat

text \<open>The template literal \<^verbatim>\<open>`${id}`\<close>.\<close>

fun decimal :: "nat \<Rightarrow> string" where
  "decimal n =
     (if n < 10 then [''0123456789'' ! n]
      else decimal (n div 10) @ [''0123456789'' ! (n mod 10)])"

fun template :: "jid \<Rightarrow> string" where
  "template Undefined = ''undefined''"
| "template (Num n) = decimal n"
| "template (Str s) = s"

definition trackJobCompletion :: "jid \<Rightarrow> registry \<Rightarrow> nat \<times> registry" where
  "trackJobCompletion searchForID reg =
     (let p = promises reg in
      (p, reg\<lparr>listeners := listeners reg @ [(p, searchForID)], promises := p + 1\<rparr>))"

text \<open>
  The listener of lines 245-255, called with the event's \<^verbatim>\<open>detail\<close>: it
  records the descriptor of every completion event it sees and, when the
  event's id matches as a string, removes itself and completes its promise.
  A listener is removed when it completes its promise, so a promise is
  completed at most once.
\<close>

definition listener ::
  "jid \<times> PenumbraDecryptionInfo \<Rightarrow> nat \<times> jid \<Rightarrow> registry \<Rightarrow> registry" where
  "listener detail l reg =
     (case detail of (i, decryptionInfo) \<Rightarrow>
      case l of (p, searchForID) \<Rightarrow>
        (let reg1 = reg\<lparr>decryptionConfigs := (decryptionConfigs reg)(i \<mapsto> decryptionInfo)\<rparr> in
         if searchForID \<noteq> Undefined \<and> template i = template searchForID
         then reg1\<lparr>listeners := remove1 l (listeners reg1),
                   settled := (settled reg1)(p \<mapsto> decryptionInfo)\<rparr>
         else reg1))"

text \<open>
  Dispatching one \<^verbatim>\<open>'penumbra-complete'\<close> event: every listener registered
  when the dispatch starts is called once, in registration order.
\<close>

definition dispatch_complete :: "jid \<times> PenumbraDecryptionInfo \<Rightarrow> registry \<Rightarrow> registry" where
  "dispatch_complete detail reg = fold (listener detail) (listeners reg) reg"

definition getDecryptionInfo ::
  "PenumbraFile \<Rightarrow> registry \<Rightarrow> PenumbraDecryptionInfo promise \<times> registry" where
  "getDecryptionInfo file reg =
     (case decryptionConfigs reg (id_f file) of
        None \<Rightarrow> (case trackJobCompletion (id_f file) reg of (p, reg') \<Rightarrow> (Pending p, reg'))
      | Some decryptionInfo \<Rightarrow> (Resolved decryptionInfo, reg))"

section \<open>getTextOrURI\<close>

datatype text_or_uri = Text | Uri

datatype payload = TextOf content | ObjectURL nat

record PenumbraTextOrURI =
  type_t :: text_or_uri
  data_t :: payload
  mimetype_t :: string

fun content_of :: "stream \<Rightarrow> content" where
  "content_of (ReadableStream c) = c"
| "content_of (ArrayBuffer c) = c"
| "content_of (OtherStream c) = c"

text \<open>
  Modelled from the spec: \<^verbatim>\<open>blobCache\<close> of \<^verbatim>\<open>./utils\<close> is not part of the
  sources at hand; it is the process-wide cache of the URIs produced, kept
  for later revocation, and \<^verbatim>\<open>get\<close>/\<^verbatim>\<open>set\<close> read and replace its array.
  \<^verbatim>\<open>URL.createObjectURL\<close> registers the blob in the browser's blob URL store
  and returns a URL not handed out before: the store is the list
  \<open>objectURLs\<close>, and a URL is the position of its blob in it.
\<close>

record blobs =
  blobCache :: "nat list"
  objectURLs :: "content list"

text \<open>The destructuring default \<^verbatim>\<open>{ mimetype = '' }\<close>.\<close>

fun mimetype_or_empty :: "string option \<Rightarrow> string" where
  "mimetype_or_empty None = []"
| "mimetype_or_empty (Some m) = m"

text \<open>
  The callback of lines 554-568 for one file, run to its end; reading the
  stream and \<^verbatim>\<open>getBlob\<close> are taken to succeed. \<open>isViewableText\<close> of
  \<^verbatim>\<open>./utils\<close> is a parameter.
\<close>

definition textOrURI ::
  "(string \<Rightarrow> bool) \<Rightarrow> PenumbraFile \<Rightarrow> blobs \<Rightarrow> PenumbraTextOrURI \<times> blobs" where
  "textOrURI isViewableText file b =
     (let mimetype' = mimetype_or_empty (mimetype file) in
      if isViewableText mimetype'
      then (\<lparr>type_t = Text, data_t = TextOf (content_of (stream file)), mimetype_t = mimetype'\<rparr>, b)
      else
        (let url' = length (objectURLs b);
             b1 = b\<lparr>objectURLs := objectURLs b @ [content_of (stream file)]\<rparr>;
             cache = blobCache b1 @ [url']
         in (\<lparr>type_t = Uri, data_t = ObjectURL url', mimetype_t = mimetype'\<rparr>,
             b1\<lparr>blobCache := cache\<rparr>)))"

text \<open>
  \<^verbatim>\<open>getTextOrURI\<close> returns one promise per file, in input order; the
  callbacks finish in whatever order their streams are read. \<open>order\<close> lists
  the indices of the callbacks in the order they finish; a callback finishes
  once. The result holds \<open>None\<close> for a promise still pending.
\<close>

definition finish ::
  "(string \<Rightarrow> bool) \<Rightarrow> PenumbraFile list \<Rightarrow> nat \<Rightarrow>
   PenumbraTextOrURI option list \<times> blobs \<Rightarrow> PenumbraTextOrURI option list \<times> blobs" where
  "finish isViewableText files i acc =
     (case acc of (rs, b) \<Rightarrow>
        if i < length files \<and> rs ! i = None
        then (case textOrURI isViewableText (files ! i) b of
                (r, b') \<Rightarrow> (rs[i := Some r], b'))
        else (rs, b))"

definition getTextOrURI ::
  "(string \<Rightarrow> bool) \<Rightarrow> PenumbraFile list \<Rightarrow> nat list \<Rightarrow> blobs \<Rightarrow>
   PenumbraTextOrURI option list \<times> blobs" where
  "getTextOrURI isViewableText files order b =
     fold (finish isViewableText files) order (replicate (length files) None, b)"

section \<open>The worker-facing surface (class PenumbraWorker)\<close>









section \<open>Example inputs\<close>

definition ex_state :: state where
  "ex_state = \<lparr>jobID = 0, remoteStreams = 0, dispatched = [], piped = [], processed = []\<rparr>"

definition ex_file :: PenumbraFile where
  "ex_file = \<lparr>id_f = Undefined, stream = ReadableStream (Bytes ''abcde''), size_f = Some 5,
              mimetype = Some ''text/plain'', filePrefix = Some ''a'', path = None, key = None\<rparr>"

definition ex_buffer_file :: PenumbraFile where
  "ex_buffer_file = ex_file\<lparr>stream := ArrayBuffer (Bytes ''abcde'')\<rparr>"

definition ex_unsized_file :: PenumbraFile where
  "ex_unsized_file = ex_file\<lparr>size_f := None\<rparr>"

definition ex_empty_file :: PenumbraFile where
  "ex_empty_file = ex_file\<lparr>stream := ReadableStream (Bytes []), size_f := Some 0\<rparr>"

definition ex_tagged_file :: PenumbraFile where
  "ex_tagged_file = ex_file\<lparr>id_f := Num 7\<rparr>"



definition ex_info :: PenumbraDecryptionInfo where
  "ex_info = \<lparr>d_key = ''k'', iv = ''i'', authTag = ''t''\<rparr>"

definition ex_decryptFile ::
  "PenumbraDecryptionInfo \<Rightarrow> PenumbraFile \<Rightarrow> int option \<Rightarrow> PenumbraFile" where
  "ex_decryptFile options file size' = file\<lparr>stream := ReadableStream (content_of (stream file))\<rparr>"

definition ex_resource :: RemoteResource where
  "ex_resource = \<lparr>url = Some ''https://example.org/a.enc'', requestInit = None,
                  filePrefix_r = None, mimetype_r = None, path_r = None,
                  decryptionOptions = Some ex_info\<rparr>"

definition ex_pathname :: "string option \<Rightarrow> string" where
  "ex_pathname u = ''/a.enc''"

definition ex_fetchAndDecrypt :: "RemoteResource \<Rightarrow> content" where
  "ex_fetchAndDecrypt resource = Bytes ''abcde''"



section \<open>Well-formed registries\<close>

text \<open>
  Promises are numbered as they are created, so in every registry the
  program reaches the listeners' promises are among those created so far,
  and no promise not yet created is completed.
\<close>

definition wf_registry :: "registry \<Rightarrow> bool" where
  "wf_registry reg =
     ((\<forall>l\<in>set (listeners reg). fst l < promises reg)
      \<and> (\<forall>q. promises reg \<le> q \<longrightarrow> settled reg q = None))"


definition ex_encrypted :: "PenumbraFile list" where
  "ex_encrypted = [ex_tagged_file\<lparr>id_f := Num 0\<rparr>, ex_file\<lparr>id_f := Num 1\<rparr>]"

definition ex_state_encrypted :: state where
  "ex_state_encrypted =
     ex_state\<lparr>jobID := 2,
              processed := [EncryptFile None (ex_tagged_file\<lparr>id_f := Num 0\<rparr>) (Some 5),
                            EncryptFile None (ex_file\<lparr>id_f := Num 1\<rparr>) (Some 5)]\<rparr>"

definition ex_decrypted :: "PenumbraFile list" where
  "ex_decrypted = [ex_tagged_file\<lparr>stream := ReadableStream (Remote 0)\<rparr>,
                   ex_file\<lparr>stream := ReadableStream (Remote 1), id_f := Num 0\<rparr>]"

definition ex_state_decrypted :: state where
  "ex_state_decrypted =
     ex_state\<lparr>jobID := 1, remoteStreams := 4,
              dispatched := [CallDecrypt ex_info [Num 7, Num 0] [5, 5] [2, 3] [0, 1]],
              piped := [(ReadableStream (Bytes ''abcde''), 2), (ReadableStream (Bytes ''abcde''), 3)]\<rparr>"

definition ex_isViewableText :: "string \<Rightarrow> bool" where
  "ex_isViewableText m = (m = ''text/plain'')"

definition ex_image_file :: PenumbraFile where
  "ex_image_file = ex_file\<lparr>mimetype := Some ''image/png''\<rparr>"

definition ex_blobs :: blobs where
  "ex_blobs = \<lparr>blobCache = [], objectURLs = []\<rparr>"


section \<open>What getTextOrURI has produced so far\<close>


section \<open>Promise.all over one job per item\<close>

lemma run_all_Cons:
  "run_all (p # ps) st =
     (fst (p st) # fst (run_all ps (snd (p st))), snd (run_all ps (snd (p st))))"
  by (simp split: prod.splits)

lemma api_call_fst:
  "fst (api_call job xs st) = Promise_all (fst (run_all (map (single_job job) xs) st))"
  by (simp add: api_call_def split: prod.splits)

lemma api_call_snd:
  "snd (api_call job xs st) = snd (run_all (map (single_job job) xs) st)"
  by (simp add: api_call_def split: prod.splits)

lemma Promise_all_rejects:
  "\<exists>r\<in>set rs. isl r \<Longrightarrow> isl (Promise_all rs)"
  by (induction rs rule: Promise_all.induct) (auto split: sum.splits)

lemma run_all_some_rejects:
  "x \<in> set xs \<Longrightarrow> (\<And>s. isl (fst (j x s))) \<Longrightarrow> \<exists>r\<in>set (fst (run_all (map j xs) st)). isl r"
proof (induction xs arbitrary: st)
  case Nil
  then show ?case by simp
next
  case (Cons a xs)
  show ?case
  proof (cases "a = x")
    case True
    with Cons.prems(2)[of st] show ?thesis
      by (simp add: run_all_Cons del: run_all.simps(2))
  next
    case False
    with Cons.prems have "x \<in> set xs" by simp
    from Cons.IH[OF this Cons.prems(2)] show ?thesis
      by (simp add: run_all_Cons del: run_all.simps(2))
  qed
qed

lemma api_call_rejects:
  assumes "x \<in> set xs" and "\<And>s. isl (fst (single_job job x s))"
  shows "isl (fst (api_call job xs st))"
proof -
  from run_all_some_rejects[OF assms(1), of "single_job job" st] assms(2)
  have "\<exists>r\<in>set (fst (run_all (map (single_job job) xs) st)). isl r" by blast
  then have "isl (Promise_all (fst (run_all (map (single_job job) xs) st)))"
    by (rule Promise_all_rejects)
  then show ?thesis by (simp add: api_call_fst)
qed

section \<open>Empty batches\<close>

text \<open>
  C4 says that \<open>get\<close>, \<open>encrypt\<close> and \<open>decrypt\<close> called with an empty batch
  reject with an argument-missing error. The batch jobs have that guard
  (\<^verbatim>\<open>'penumbra.get() called without arguments'\<close>), but the public operations
  map over the items and call the job once per item, so with no item no job
  is ever called: the public operations resolve with the empty array and
  leave the state as it was.
\<close>

theorem empty_batch_resolves:
  "get ws pathname fetchAndDecrypt [] st = (Inr [], st)
   \<and> encrypt ws options [] st = (Inr [], st)
   \<and> decrypt ws decryptFile info [] st = (Inr [], st)"
  by (simp add: get_def encrypt_def decrypt_def api_call_def)

section \<open>Buffers passed to encrypt\<close>

lemma encryptJob_ArrayBuffer:
  "list_ex (\<lambda>file. instanceof_ArrayBuffer (stream file)) files \<Longrightarrow>
   encryptJob ws options files st = (Inl OnlySupportsReadableStreams, st)"
  by (auto simp: encryptJob_def)

lemma single_encrypt_ArrayBuffer:
  "instanceof_ArrayBuffer (stream file) \<Longrightarrow> isl (fst (single_job (encryptJob ws options) file s))"
  by (simp add: single_job_def encryptJob_ArrayBuffer)

text \<open>
  C10, amended. A batch handed to the batch job \<open>encryptJob\<close> in which some
  file's stream is an \<^verbatim>\<open>ArrayBuffer\<close> is rejected with the state untouched
  (no job id assigned, nothing else done), whichever path would be taken.
  The public \<open>encrypt\<close> starts one job per file: it rejects as well, but the
  jobs of the other files have run by then.
\<close>

theorem encryptJob_rejects_buffers:
  "list_ex (\<lambda>file. instanceof_ArrayBuffer (stream file)) files \<Longrightarrow>
   encryptJob ws options files st = (Inl OnlySupportsReadableStreams, st)
   \<and> (\<exists>e. fst (encrypt ws options files st) = Inl e)"
proof -
  assume a: "list_ex (\<lambda>file. instanceof_ArrayBuffer (stream file)) files"
  then obtain f where f: "f \<in> set files" "instanceof_ArrayBuffer (stream f)"
    by (auto simp: list_ex_iff)
  have "isl (fst (encrypt ws options files st))"
    unfolding encrypt_def
    by (rule api_call_rejects[OF f(1)]) (rule single_encrypt_ArrayBuffer[OF f(2)])
  then have "\<exists>e. fst (encrypt ws options files st) = Inl e"
    by (cases "fst (encrypt ws options files st)") auto
  with a show ?thesis by (simp add: encryptJob_ArrayBuffer)
qed

theorem encryptJob_rejects_buffers_witness:
  "list_ex (\<lambda>file. instanceof_ArrayBuffer (stream file)) [ex_file, ex_buffer_file]
   \<and> encryptJob False None [ex_file, ex_buffer_file] ex_state
       = (Inl OnlySupportsReadableStreams, ex_state)
   \<and> (\<exists>e. fst (encrypt False None [ex_file, ex_buffer_file] ex_state) = Inl e)"
proof -
  have h: "list_ex (\<lambda>file. instanceof_ArrayBuffer (stream file)) [ex_file, ex_buffer_file]"
    by (simp add: ex_buffer_file_def)
  show ?thesis
    using h encryptJob_rejects_buffers [OF h, of False None ex_state] by simp
qed

text \<open>
  The public \<open>encrypt\<close> with a live stream followed by a buffer: the call
  rejects, and the first file's job has drawn a job id by then.
\<close>

theorem encrypt_buffer_after_stream:
  "instanceof_ArrayBuffer (stream ex_buffer_file)
   \<and> fst (encrypt True None [ex_file, ex_buffer_file] ex_state) = Inl OnlySupportsReadableStreams
   \<and> jobID (snd (encrypt True None [ex_file, ex_buffer_file] ex_state)) = 1
   \<and> jobID ex_state = 0"
  by (simp add: encrypt_def api_call_def single_job_def encryptJob_def enumerate_eq_zip
      ex_file_def ex_buffer_file_def ex_state_def)

section \<open>The worker truncates mismatched batches\<close>






section \<open>Completion tracking\<close>

declare decimal.simps [simp del]




lemma listener_other:
  "fst l \<noteq> p \<Longrightarrow> settled (listener e l reg) p = settled reg p"
  by (cases l; cases e) (simp add: listener_def Let_def)


lemma listener_listeners_subset:
  "set (listeners (listener e l reg)) \<subseteq> set (listeners reg)"
  using set_remove1_subset[of l "listeners reg"]
  by (cases l; cases e) (auto simp: listener_def Let_def)


lemma listener_promises: "promises (listener e l reg) = promises reg"
  by (cases l; cases e) (simp add: listener_def Let_def)










lemma fold_listener_untouched:
  "\<forall>l\<in>set ls. fst l \<noteq> p \<Longrightarrow> settled (fold (listener e) ls reg) p = settled reg p"
  by (induction ls arbitrary: reg) (simp_all add: listener_other)

lemma fold_listener_subset:
  "set (listeners (fold (listener e) ls reg)) \<subseteq> set (listeners reg)
   \<and> promises (fold (listener e) ls reg) = promises reg"
proof (induction ls arbitrary: reg)
  case Nil
  then show ?case by simp
next
  case (Cons l ls)
  from Cons.IH[of "listener e l reg"] listener_listeners_subset[of e l reg] listener_promises[of e l reg]
  show ?case by auto
qed

lemma wf_getDecryptionInfo: "wf_registry reg \<Longrightarrow> wf_registry (snd (getDecryptionInfo file reg))"
  by (auto simp: wf_registry_def getDecryptionInfo_def trackJobCompletion_def Let_def split: option.splits)

lemma wf_dispatch_complete: 
  assumes "wf_registry reg" shows "wf_registry (dispatch_complete e reg)"
proof -
  have "settled (dispatch_complete e reg) q = None" if "promises reg \<le> q" for q
  proof -
    from assms that have "\<forall>l\<in>set (listeners reg). fst l \<noteq> q" by (auto simp: wf_registry_def)
    then have "settled (dispatch_complete e reg) q = settled reg q"
      unfolding dispatch_complete_def by (rule fold_listener_untouched)
    with assms that show ?thesis by (simp add: wf_registry_def)
  qed
  with assms fold_listener_subset[of e "listeners reg" reg] show ?thesis
    unfolding wf_registry_def dispatch_complete_def by auto
qed





section \<open>Collecting ids and sizes\<close>

lemma encrypt_collect_fails:
  "list_ex (\<lambda>f. \<not> truthy_size (size_f f)) files \<Longrightarrow>
   encrypt_collect j files =
     (j + length (takeWhile (\<lambda>f. truthy_size (size_f f)) files) + 1,
      Inl (UnableToDetermineFileSize Encrypt))"
  by (induction files arbitrary: j) (auto simp: Let_def)

lemma encrypt_collect_ok:
  "list_all (\<lambda>f. truthy_size (size_f f)) files \<Longrightarrow>
   encrypt_collect j files =
     (j + length files,
      Inr (map (\<lambda>(k, f). (f\<lparr>id_f := Num k\<rparr>, Num k, size_or_0 (size_f f))) (enumerate j files)))"
  by (induction files arbitrary: j) (auto simp: Let_def)

lemma decrypt_collect_fails:
  "list_ex (\<lambda>f. \<not> truthy_size (size_f f)) files \<Longrightarrow>
   snd (decrypt_collect j files) = Inl (UnableToDetermineFileSize Decrypt)
   \<and> j \<le> fst (decrypt_collect j files)"
proof (induction files arbitrary: j)
  case Nil
  then show ?case by simp
next
  case (Cons f files)
  show ?case
  proof (cases "truthy_size (size_f f)")
    case True
    with Cons.prems have "list_ex (\<lambda>f. \<not> truthy_size (size_f f)) files" by simp
    from Cons.IH[OF this, of j] Cons.IH[OF this, of "j + 1"] True show ?thesis
      by (auto simp: Let_def split: prod.splits sum.splits)
  next
    case False
    then show ?thesis by (simp add: Let_def)
  qed
qed

lemma decrypt_collect_mono: "j \<le> fst (decrypt_collect j files)"
proof (induction files arbitrary: j)
  case Nil
  then show ?case by simp
next
  case (Cons f files)
  from Cons.IH[of j] Cons.IH[of "j + 1"] show ?case
    by (auto simp: Let_def split: prod.splits sum.splits)
qed



lemma encryptJob_unsized:
  assumes "list_ex (\<lambda>f. \<not> truthy_size (size_f f)) files"
    and "\<not> list_ex (\<lambda>f. instanceof_ArrayBuffer (stream f)) files"
  shows "encryptJob ws options files st =
           (Inl (UnableToDetermineFileSize Encrypt),
            st\<lparr>jobID := jobID st + length (takeWhile (\<lambda>f. truthy_size (size_f f)) files) + 1\<rparr>)"
proof -
  from assms(1) have "files \<noteq> []" by auto
  with assms(2) encrypt_collect_fails[OF assms(1), of "jobID st"] show ?thesis
    by (simp add: encryptJob_def)
qed

lemma decryptJob_unsized:
  assumes "list_ex (\<lambda>f. \<not> truthy_size (size_f f)) files"
  shows "fst (decryptJob True decryptFile info files st) = Inl (UnableToDetermineFileSize Decrypt)"
    and "\<exists>j\<ge>jobID st. snd (decryptJob True decryptFile info files st) =
           st\<lparr>remoteStreams := remoteStreams st + 2 * length files, jobID := j\<rparr>"
proof -
  from assms have ne: "files \<noteq> []" by auto
  obtain j r where c: "decrypt_collect (jobID st) files = (j, r)" by (cases "decrypt_collect (jobID st) files")
  with decrypt_collect_fails[OF assms, of "jobID st"]
  have r: "r = Inl (UnableToDetermineFileSize Decrypt)" and j: "jobID st \<le> j" by simp_all
  from ne c r show "fst (decryptJob True decryptFile info files st) = Inl (UnableToDetermineFileSize Decrypt)"
    by (simp add: decryptJob_def Let_def)
  from ne c r have "snd (decryptJob True decryptFile info files st) =
           st\<lparr>remoteStreams := remoteStreams st + 2 * length files, jobID := j\<rparr>"
    by (simp add: decryptJob_def Let_def)
  with j show "\<exists>j\<ge>jobID st. snd (decryptJob True decryptFile info files st) =
           st\<lparr>remoteStreams := remoteStreams st + 2 * length files, jobID := j\<rparr>"
    by blast
qed

lemma encryptJob_mono: "jobID st \<le> jobID (snd (encryptJob ws options files st))"
proof (cases "list_all (\<lambda>f. truthy_size (size_f f)) files")
  case True
  from encrypt_collect_ok[OF True, of "jobID st"] show ?thesis
    by (simp add: encryptJob_def Let_def)
next
  case False
  then have "list_ex (\<lambda>f. \<not> truthy_size (size_f f)) files"
    by (simp add: list_ex_iff list_all_iff)
  from encrypt_collect_fails[OF this, of "jobID st"] show ?thesis
    by (simp add: encryptJob_def Let_def)
qed




section \<open>Files whose size cannot be determined\<close>

text \<open>
  C3, amended. A batch handed to a batch job that contains a file whose
  \<^verbatim>\<open>size\<close> is falsy (absent, or 0) is rejected with the size-undetermined
  error, and nothing is dispatched to the worker, piped or processed.
  \<open>encryptJob\<close> (given only live streams) rejects before any remote stream
  is constructed, on either path, but it has drawn a job id for every file
  up to and including the first one without a size. \<open>decryptJob\<close> on the
  streaming path constructs the two remote streams of every file of the
  batch first and may have advanced the counter as well.
\<close>

theorem unsized_batch_rejected:
  "list_ex (\<lambda>file. \<not> truthy_size (size_f file)) files \<longrightarrow>
     (\<not> list_ex (\<lambda>file. instanceof_ArrayBuffer (stream file)) files \<longrightarrow>
        encryptJob ws options files st =
          (Inl (UnableToDetermineFileSize Encrypt),
           st\<lparr>jobID := jobID st + length (takeWhile (\<lambda>file. truthy_size (size_f file)) files) + 1\<rparr>))
     \<and> fst (decryptJob True decryptFile info files st) = Inl (UnableToDetermineFileSize Decrypt)
     \<and> (\<exists>j\<ge>jobID st. snd (decryptJob True decryptFile info files st) =
           st\<lparr>remoteStreams := remoteStreams st + 2 * length files, jobID := j\<rparr>)"
  using encryptJob_unsized[where files=files and ws=ws and options=options and st=st]
        decryptJob_unsized[where files=files and decryptFile=decryptFile and info=info and st=st]
  by blast

theorem unsized_batch_rejected_witness:
  "list_ex (\<lambda>file. \<not> truthy_size (size_f file)) [ex_file, ex_unsized_file, ex_file]
   \<and> \<not> list_ex (\<lambda>file. instanceof_ArrayBuffer (stream file)) [ex_file, ex_unsized_file, ex_file]
   \<and> encryptJob True None [ex_file, ex_unsized_file, ex_file] ex_state =
        (Inl (UnableToDetermineFileSize Encrypt), ex_state\<lparr>jobID := 2\<rparr>)
   \<and> fst (decryptJob True ex_decryptFile ex_info [ex_file, ex_unsized_file, ex_file] ex_state)
        = Inl (UnableToDetermineFileSize Decrypt)
   \<and> (\<exists>j\<ge>jobID ex_state.
        snd (decryptJob True ex_decryptFile ex_info [ex_file, ex_unsized_file, ex_file] ex_state)
         = ex_state\<lparr>remoteStreams := 6, jobID := j\<rparr>)"
proof -
  have h1: "list_ex (\<lambda>file. \<not> truthy_size (size_f file)) [ex_file, ex_unsized_file, ex_file]"
    by (simp add: ex_unsized_file_def)
  have h2: "\<not> list_ex (\<lambda>file. instanceof_ArrayBuffer (stream file)) [ex_file, ex_unsized_file, ex_file]"
    by (simp add: ex_unsized_file_def ex_file_def)
  have s: "jobID ex_state = 0" "remoteStreams ex_state = 0" by (simp_all add: ex_state_def)
  have t: "length (takeWhile (\<lambda>file. truthy_size (size_f file)) [ex_file, ex_unsized_file, ex_file]) = 1"
    by (simp add: ex_unsized_file_def ex_file_def)
  note inst = unsized_batch_rejected[of "[ex_file, ex_unsized_file, ex_file]" True None ex_state ex_decryptFile ex_info]
  from inst h1 h2 have a:
    "encryptJob True None [ex_file, ex_unsized_file, ex_file] ex_state =
       (Inl (UnableToDetermineFileSize Encrypt),
        ex_state\<lparr>jobID := jobID ex_state
          + length (takeWhile (\<lambda>file. truthy_size (size_f file)) [ex_file, ex_unsized_file, ex_file])
          + 1\<rparr>)"
    by blast
  from inst h1 have b:
    "fst (decryptJob True ex_decryptFile ex_info [ex_file, ex_unsized_file, ex_file] ex_state)
        = Inl (UnableToDetermineFileSize Decrypt)"
    by blast
  from inst h1 have c:
    "\<exists>j\<ge>jobID ex_state.
        snd (decryptJob True ex_decryptFile ex_info [ex_file, ex_unsized_file, ex_file] ex_state)
         = ex_state\<lparr>remoteStreams := remoteStreams ex_state + 2 * length [ex_file, ex_unsized_file, ex_file],
                    jobID := j\<rparr>"
    by blast
  have a': "encryptJob True None [ex_file, ex_unsized_file, ex_file] ex_state =
        (Inl (UnableToDetermineFileSize Encrypt), ex_state\<lparr>jobID := 2\<rparr>)"
    unfolding a s t by simp
  from c have c': "\<exists>j\<ge>jobID ex_state.
        snd (decryptJob True ex_decryptFile ex_info [ex_file, ex_unsized_file, ex_file] ex_state)
         = ex_state\<lparr>remoteStreams := 6, jobID := j\<rparr>"
    unfolding s by simp
  from h1 h2 a' b c' show ?thesis by blast
qed

text \<open>
  The public operations with a single file without a size: \<open>encrypt\<close>
  rejects and the counter has moved; \<open>decrypt\<close> rejects and two remote
  streams have been constructed.
\<close>

theorem unsized_file_consumes_id:
  "\<not> truthy_size (size_f ex_unsized_file)
   \<and> fst (encrypt True None [ex_unsized_file] ex_state) = Inl (UnableToDetermineFileSize Encrypt)
   \<and> jobID (snd (encrypt True None [ex_unsized_file] ex_state)) = 1
   \<and> jobID ex_state = 0
   \<and> fst (decrypt True ex_decryptFile ex_info [ex_unsized_file] ex_state)
       = Inl (UnableToDetermineFileSize Decrypt)
   \<and> remoteStreams (snd (decrypt True ex_decryptFile ex_info [ex_unsized_file] ex_state)) = 2
   \<and> remoteStreams ex_state = 0"
  by (simp add: encrypt_def decrypt_def api_call_def single_job_def encryptJob_def decryptJob_def
      Let_def ex_unsized_file_def ex_file_def ex_state_def)


section \<open>The ceiling of the buffered path\<close>




section \<open>Files of size zero\<close>

lemma Promise_all_same_error:
  "\<forall>r\<in>set rs. r = Inl E \<or> \<not> isl r \<Longrightarrow> \<exists>r\<in>set rs. r = Inl E \<Longrightarrow> Promise_all rs = Inl E"
  by (induction rs rule: Promise_all.induct) (auto split: sum.splits)

lemma run_all_outcomes:
  "r \<in> set (fst (run_all (map j xs) st)) \<Longrightarrow> \<exists>x\<in>set xs. \<exists>s. r = fst (j x s)"
proof (induction xs arbitrary: st)
  case Nil
  then show ?case by simp
next
  case (Cons a xs)
  from Cons.prems have "r = fst (j a st) \<or> r \<in> set (fst (run_all (map j xs) (snd (j a st))))"
    by (simp add: run_all_Cons del: run_all.simps(2))
  with Cons.IH show ?case by auto
qed

lemma run_all_hits:
  "x \<in> set xs \<Longrightarrow> \<exists>s. fst (j x s) \<in> set (fst (run_all (map j xs) st))"
proof (induction xs arbitrary: st)
  case Nil
  then show ?case by simp
next
  case (Cons a xs)
  show ?case
  proof (cases "a = x")
    case True
    then show ?thesis by (auto simp: run_all_Cons simp del: run_all.simps(2))
  next
    case False
    with Cons.prems have "x \<in> set xs" by simp
    from Cons.IH[OF this, of "snd (j a st)"] show ?thesis
      by (auto simp: run_all_Cons simp del: run_all.simps(2))
  qed
qed

lemma api_call_same_error:
  assumes "x \<in> set xs"
    and "\<And>s. fst (single_job job x s) = Inl E"
    and "\<And>y s. y \<in> set xs \<Longrightarrow> fst (single_job job y s) = Inl E \<or> \<not> isl (fst (single_job job y s))"
  shows "fst (api_call job xs st) = Inl E"
proof -
  let ?rs = "fst (run_all (map (single_job job) xs) st)"
  have "\<forall>r\<in>set ?rs. r = Inl E \<or> \<not> isl r"
    using run_all_outcomes[of _ "single_job job" xs st] assms(3) by metis
  moreover from run_all_hits[OF assms(1), of "single_job job" st] assms(2)
  have "\<exists>r\<in>set ?rs. r = Inl E" by metis
  ultimately have "Promise_all ?rs = Inl E" by (rule Promise_all_same_error)
  then show ?thesis by (simp add: api_call_fst)
qed

lemma single_encrypt_outcome:
  "\<not> instanceof_ArrayBuffer (stream f) \<Longrightarrow>
   fst (single_job (encryptJob True options) f s) =
     (if truthy_size (size_f f)
      then Inr (Some (f\<lparr>stream := ReadableStream (Remote (remoteStreams s)),
                        size_f := Some (size_or_0 (size_f f)), id_f := Num (jobID s)\<rparr>))
      else Inl (UnableToDetermineFileSize Encrypt))"
  by (simp add: single_job_def encryptJob_def Let_def)

lemma single_decrypt_outcome:
  "fst (single_job (decryptJob True decryptFile info) f s) =
     (if truthy_size (size_f f)
      then Inr (Some (f\<lparr>stream := ReadableStream (Remote (remoteStreams s)),
                        size_f := Some (size_or_0 (size_f f)),
                        id_f := (if truthy_id (id_f f) then id_f f else Num (jobID s))\<rparr>))
      else Inl (UnableToDetermineFileSize Decrypt))"
  by (simp add: single_job_def decryptJob_def Let_def)

text \<open>
  C9, amended. A file whose declared size is exactly 0 fails the truthiness
  test of the size. Hence a batch of live streams containing such a file is
  rejected with the size-undetermined error by \<open>encryptJob\<close> on either path
  and by the public \<open>encrypt\<close> on the streaming path, and any batch
  containing such a file is rejected with that error by \<open>decryptJob\<close> and
  the public \<open>decrypt\<close> on the streaming path.
\<close>

theorem zero_size_rejected:
  "f \<in> set files \<and> size_f f = Some 0 \<longrightarrow>
     (\<not> list_ex (\<lambda>file. instanceof_ArrayBuffer (stream file)) files \<longrightarrow>
        fst (encryptJob ws options files st) = Inl (UnableToDetermineFileSize Encrypt)
        \<and> fst (encrypt True options files st) = Inl (UnableToDetermineFileSize Encrypt))
     \<and> fst (decryptJob True decryptFile info files st) = Inl (UnableToDetermineFileSize Decrypt)
     \<and> fst (decrypt True decryptFile info files st) = Inl (UnableToDetermineFileSize Decrypt)"
proof (intro impI)
  assume a: "f \<in> set files \<and> size_f f = Some 0"
  then have mem: "f \<in> set files" and z: "\<not> truthy_size (size_f f)" by simp_all
  then have ex: "list_ex (\<lambda>file. \<not> truthy_size (size_f file)) files"
    by (auto simp: list_ex_iff)
  have e1: "fst (encryptJob ws options files st) = Inl (UnableToDetermineFileSize Encrypt)"
    if "\<not> list_ex (\<lambda>file. instanceof_ArrayBuffer (stream file)) files"
    using encryptJob_unsized[OF ex that, of ws options st] by simp
  have e2: "fst (encrypt True options files st) = Inl (UnableToDetermineFileSize Encrypt)"
    if nb: "\<not> list_ex (\<lambda>file. instanceof_ArrayBuffer (stream file)) files"
    unfolding encrypt_def
  proof (rule api_call_same_error[OF mem])
    from nb mem have "\<not> instanceof_ArrayBuffer (stream f)" by (auto simp: list_ex_iff)
    with z show "fst (single_job (encryptJob True options) f s) = Inl (UnableToDetermineFileSize Encrypt)" for s
      by (simp add: single_encrypt_outcome)
  next
    fix y s assume "y \<in> set files"
    with nb have "\<not> instanceof_ArrayBuffer (stream y)" by (auto simp: list_ex_iff)
    then show "fst (single_job (encryptJob True options) y s) = Inl (UnableToDetermineFileSize Encrypt)
        \<or> \<not> isl (fst (single_job (encryptJob True options) y s))"
      by (simp add: single_encrypt_outcome)
  qed
  have d1: "fst (decryptJob True decryptFile info files st) = Inl (UnableToDetermineFileSize Decrypt)"
    by (rule decryptJob_unsized(1)[OF ex])
  have d2: "fst (decrypt True decryptFile info files st) = Inl (UnableToDetermineFileSize Decrypt)"
    unfolding decrypt_def
  proof (rule api_call_same_error[OF mem])
    from z show "fst (single_job (decryptJob True decryptFile info) f s) = Inl (UnableToDetermineFileSize Decrypt)" for s
      by (simp add: single_decrypt_outcome)
  next
    fix y :: PenumbraFile and s
    show "fst (single_job (decryptJob True decryptFile info) y s) = Inl (UnableToDetermineFileSize Decrypt)
        \<or> \<not> isl (fst (single_job (decryptJob True decryptFile info) y s))"
      by (simp add: single_decrypt_outcome)
  qed
  from e1 e2 d1 d2
  show "(\<not> list_ex (\<lambda>file. instanceof_ArrayBuffer (stream file)) files \<longrightarrow>
        fst (encryptJob ws options files st) = Inl (UnableToDetermineFileSize Encrypt)
        \<and> fst (encrypt True options files st) = Inl (UnableToDetermineFileSize Encrypt))
     \<and> fst (decryptJob True decryptFile info files st) = Inl (UnableToDetermineFileSize Decrypt)
     \<and> fst (decrypt True decryptFile info files st) = Inl (UnableToDetermineFileSize Decrypt)"
    by blast
qed

theorem zero_size_rejected_witness:
  "ex_empty_file \<in> set [ex_file, ex_empty_file] \<and> size_f ex_empty_file = Some 0
   \<and> \<not> list_ex (\<lambda>file. instanceof_ArrayBuffer (stream file)) [ex_file, ex_empty_file]
   \<and> fst (encryptJob False None [ex_file, ex_empty_file] ex_state) = Inl (UnableToDetermineFileSize Encrypt)
   \<and> fst (encrypt True None [ex_file, ex_empty_file] ex_state) = Inl (UnableToDetermineFileSize Encrypt)
   \<and> fst (decryptJob True ex_decryptFile ex_info [ex_file, ex_empty_file] ex_state)
       = Inl (UnableToDetermineFileSize Decrypt)
   \<and> fst (decrypt True ex_decryptFile ex_info [ex_file, ex_empty_file] ex_state)
       = Inl (UnableToDetermineFileSize Decrypt)"
proof -
  have h1: "ex_empty_file \<in> set [ex_file, ex_empty_file] \<and> size_f ex_empty_file = Some 0"
    by (simp add: ex_empty_file_def)
  have h2: "\<not> list_ex (\<lambda>file. instanceof_ArrayBuffer (stream file)) [ex_file, ex_empty_file]"
    by (simp add: ex_empty_file_def ex_file_def)
  from h1 h2 zero_size_rejected[of ex_empty_file "[ex_file, ex_empty_file]" False None ex_state ex_decryptFile ex_info]
  show ?thesis by blast
qed

text \<open>
  On the buffered path \<open>decrypt\<close> has no such test: a file of size 0 is
  handed to \<open>decryptFile\<close> and the call resolves.
\<close>

theorem zero_size_decrypted_on_buffered_path:
  "size_f ex_empty_file = Some 0
   \<and> fst (decrypt False ex_decryptFile ex_info [ex_empty_file] ex_state)
       = Inr [Some (ex_decryptFile ex_info ex_empty_file (Some 0))]"
  by (simp add: decrypt_def api_call_def single_job_def decryptJob_def
      ex_empty_file_def ex_file_def MAX_ALLOWED_SIZE_MAIN_THREAD_def)

section \<open>Job identifiers\<close>

lemma readables_ids:
  "map id_f (map (\<lambda>(k, file, i, s). file\<lparr>stream := ReadableStream (Remote (c + k)),
                                         size_f := Some s, id_f := i\<rparr>) (enumerate m tagged))
   = map (\<lambda>(file, i, s). i) tagged"
  by (induction tagged arbitrary: m) auto

lemma readables_length:
  "length (map (\<lambda>(k, file, i, s). g k file i s) (enumerate m tagged)) = length tagged"
  by simp

lemma id_f_spread_options [simp]: "id_f (spread_options options f) = id_f f"
  by (cases options) simp_all

lemma tagged_ids:
  "map (\<lambda>(file, i, s). i)
     (map (\<lambda>(k, f). (f\<lparr>id_f := Num k\<rparr>, Num k, size_or_0 (size_f f))) (enumerate j files))
   = map Num [j ..< j + length files]"
proof (induction files arbitrary: j)
  case Nil
  then show ?case by simp
next
  case (Cons f files)
  from Cons.IH[of "Suc j"] show ?case by (simp add: upt_conv_Cons del: upt_Suc)
qed

lemma tagged_files_ids:
  "map id_f (map (spread_options options)
     (map (\<lambda>(file, i, s). file)
       (map (\<lambda>(k, f). (f\<lparr>id_f := Num k\<rparr>, Num k, size_or_0 (size_f f))) (enumerate j files))))
   = map Num [j ..< j + length files]"
proof (induction files arbitrary: j)
  case Nil
  then show ?case by simp
next
  case (Cons f files)
  from Cons.IH[of "Suc j"] show ?case by (simp add: upt_conv_Cons del: upt_Suc)
qed

lemma encryptJob_ids:
  assumes "encryptJob ws options files st = (Inr rs, st')"
  shows "map id_f rs = map Num [jobID st ..< jobID st + length files]"
    and "jobID st' = jobID st + length files"
    and "length rs = length files"
proof -
  have t: "list_all (\<lambda>f. truthy_size (size_f f)) files"
  proof (rule ccontr)
    assume "\<not> list_all (\<lambda>f. truthy_size (size_f f)) files"
    then have "list_ex (\<lambda>f. \<not> truthy_size (size_f f)) files"
      by (simp add: list_ex_iff list_all_iff)
    from encrypt_collect_fails[OF this, of "jobID st"] assms show False
      by (simp add: encryptJob_def split: if_splits)
  qed
  note c = encrypt_collect_ok[OF t, of "jobID st"]
  from assms have ne: "files \<noteq> []" and nb: "\<not> list_ex (\<lambda>f. instanceof_ArrayBuffer (stream f)) files"
    by (auto simp: encryptJob_def split: if_splits)
  show "map id_f rs = map Num [jobID st ..< jobID st + length files]"
  proof (cases ws)
    case True
    with assms c ne nb have "rs = map (\<lambda>(k, file, i, s). file\<lparr>stream := ReadableStream (Remote (remoteStreams st + k)),
                                         size_f := Some s, id_f := i\<rparr>)
              (enumerate 0 (map (\<lambda>(k, f). (f\<lparr>id_f := Num k\<rparr>, Num k, size_or_0 (size_f f))) (enumerate (jobID st) files)))"
      by (simp add: encryptJob_def Let_def)
    then show ?thesis by (simp only: readables_ids tagged_ids)
  next
    case False
    with assms c ne nb have "rs = map (spread_options options) (map (\<lambda>(file, i, s). file)
              (map (\<lambda>(k, f). (f\<lparr>id_f := Num k\<rparr>, Num k, size_or_0 (size_f f))) (enumerate (jobID st) files)))"
      by (simp add: encryptJob_def Let_def split: if_splits)
    then show ?thesis by (simp only: tagged_files_ids)
  qed
  from assms c ne nb show "jobID st' = jobID st + length files"
    by (auto simp: encryptJob_def Let_def split: if_splits)
  from assms c ne nb show "length rs = length files"
    by (auto simp: encryptJob_def Let_def split: if_splits)
qed


lemma decrypt_collect_ids:
  "decrypt_collect j files = (j', Inr tagged) \<Longrightarrow>
   length tagged = length files
   \<and> j' = j + length (filter (\<lambda>f. \<not> truthy_id (id_f f)) files)
   \<and> (\<forall>k<length files.
        (\<lambda>(file, i, s). i) (tagged ! k) =
          (if truthy_id (id_f (files ! k)) then id_f (files ! k)
           else Num (j + length (filter (\<lambda>f. \<not> truthy_id (id_f f)) (take k files)))))"
proof (induction files arbitrary: j j' tagged)
  case Nil
  then show ?case by simp
next
  case (Cons f files)
  define j1 where "j1 = (if truthy_id (id_f f) then j else j + 1)"
  define i where "i = (if truthy_id (id_f f) then id_f f else Num j)"
  from Cons.prems obtain rest where
    r: "decrypt_collect j1 files = (j', Inr rest)"
    and t: "tagged = (f\<lparr>id_f := i\<rparr>, i, size_or_0 (size_f f)) # rest"
    by (auto simp: Let_def j1_def i_def split: if_splits prod.splits sum.splits)
  note ih = Cons.IH[OF r]
  have "(\<lambda>(file, i, s). i) (tagged ! k) =
          (if truthy_id (id_f ((f # files) ! k)) then id_f ((f # files) ! k)
           else Num (j + length (filter (\<lambda>f. \<not> truthy_id (id_f f)) (take k (f # files)))))"
    if "k < length (f # files)" for k
  proof (cases k)
    case 0
    then show ?thesis by (simp add: t i_def)
  next
    case (Suc k')
    with that have "k' < length files" by simp
    with ih have "(\<lambda>(file, i, s). i) (rest ! k') =
          (if truthy_id (id_f (files ! k')) then id_f (files ! k')
           else Num (j1 + length (filter (\<lambda>f. \<not> truthy_id (id_f f)) (take k' files))))"
      by blast
    then show ?thesis by (simp add: Suc t j1_def)
  qed
  with ih show ?case by (simp add: t j1_def)
qed

lemma decryptJob_ids:
  assumes "decryptJob True decryptFile info files st = (Inr rs, st')"
  shows "length rs = length files"
    and "jobID st' = jobID st + length (filter (\<lambda>f. \<not> truthy_id (id_f f)) files)"
    and "\<forall>k<length files.
           id_f (rs ! k) =
             (if truthy_id (id_f (files ! k)) then id_f (files ! k)
              else Num (jobID st + length (filter (\<lambda>f. \<not> truthy_id (id_f f)) (take k files))))"
proof -
  from assms have ne: "files \<noteq> []" by (auto simp: decryptJob_def split: if_splits)
  obtain j r where c: "decrypt_collect (jobID st) files = (j, r)"
    by (cases "decrypt_collect (jobID st) files")
  with assms ne obtain tagged where r: "r = Inr tagged"
    by (cases r) (auto simp: decryptJob_def Let_def)
  note ids = decrypt_collect_ids[OF c[unfolded r]]
  from assms ne c r have rs: "rs = map (\<lambda>(k, file, i, s). file\<lparr>stream := ReadableStream (Remote (remoteStreams st + k)),
                                         size_f := Some s, id_f := i\<rparr>) (enumerate 0 tagged)"
    and st': "jobID st' = j"
    by (auto simp: decryptJob_def Let_def)
  from rs have m: "map id_f rs = map (\<lambda>(file, i, s). i) tagged"
    by (simp only: readables_ids)
  from rs ids show len: "length rs = length files" by simp
  from st' ids show "jobID st' = jobID st + length (filter (\<lambda>f. \<not> truthy_id (id_f f)) files)" by simp
  show "\<forall>k<length files.
           id_f (rs ! k) =
             (if truthy_id (id_f (files ! k)) then id_f (files ! k)
              else Num (jobID st + length (filter (\<lambda>f. \<not> truthy_id (id_f f)) (take k files))))"
  proof (intro allI impI)
    fix k assume k: "k < length files"
    with len have "id_f (rs ! k) = map id_f rs ! k" by simp
    also from k ids have "\<dots> = (\<lambda>(file, i, s). i) (tagged ! k)" by (simp add: m)
    finally show "id_f (rs ! k) =
             (if truthy_id (id_f (files ! k)) then id_f (files ! k)
              else Num (jobID st + length (filter (\<lambda>f. \<not> truthy_id (id_f f)) (take k files))))"
      using ids k by simp
  qed
qed

lemma decryptJob_fallback_jobID: "jobID (snd (decryptJob False decryptFile info files st)) = jobID st"
  by (simp add: decryptJob_def)

lemma filter_absent_ids:
  "list_all (\<lambda>f. id_f f = Undefined \<or> truthy_id (id_f f)) files \<Longrightarrow>
   filter (\<lambda>f. \<not> truthy_id (id_f f)) files = filter (\<lambda>f. id_f f = Undefined) files"
  by (induction files) auto

text \<open>
  C5, amended. A batch accepted by \<open>encryptJob\<close> gets the ids
  \<open>jobID, jobID + 1, \<dots>\<close> in input order, whatever ids the files carried,
  and the counter ends past them. In a batch accepted by \<open>decryptJob\<close> on
  the streaming path (each file either without an id or with a truthy one) a
  file that carries an id keeps it, and the files without an id get the
  counter's next values in input order, the counter ending past them. On
  the buffered path \<open>decryptJob\<close> leaves the counter alone. The ids drawn
  from the counter are therefore consecutive: unique and strictly
  increasing.
\<close>

theorem job_ids_assigned:
  "(encryptJob ws options files st = (Inr rs, st') \<longrightarrow>
      length rs = length files
      \<and> map id_f rs = map Num [jobID st ..< jobID st + length files]
      \<and> jobID st' = jobID st + length files)
   \<and> (decryptJob True decryptFile info files st = (Inr rs, st')
       \<and> list_all (\<lambda>file. id_f file = Undefined \<or> truthy_id (id_f file)) files \<longrightarrow>
      length rs = length files
      \<and> (\<forall>k<length files.
            id_f (rs ! k) =
              (if id_f (files ! k) = Undefined
               then Num (jobID st + length (filter (\<lambda>file. id_f file = Undefined) (take k files)))
               else id_f (files ! k)))
      \<and> jobID st' = jobID st + length (filter (\<lambda>file. id_f file = Undefined) files))
   \<and> jobID (snd (decryptJob False decryptFile info files st)) = jobID st"
proof -
  have d: "length rs = length files
      \<and> (\<forall>k<length files.
            id_f (rs ! k) =
              (if id_f (files ! k) = Undefined
               then Num (jobID st + length (filter (\<lambda>file. id_f file = Undefined) (take k files)))
               else id_f (files ! k)))
      \<and> jobID st' = jobID st + length (filter (\<lambda>file. id_f file = Undefined) files)"
    if a: "decryptJob True decryptFile info files st = (Inr rs, st')"
      and b: "list_all (\<lambda>file. id_f file = Undefined \<or> truthy_id (id_f file)) files"
  proof -
    note ids = decryptJob_ids[OF a]
    have tk: "filter (\<lambda>f. \<not> truthy_id (id_f f)) (take k files)
              = filter (\<lambda>f. id_f f = Undefined) (take k files)" for k
    proof (rule filter_absent_ids)
      from b show "list_all (\<lambda>f. id_f f = Undefined \<or> truthy_id (id_f f)) (take k files)"
        by (auto simp: list_all_iff dest: in_set_takeD)
    qed
    have un: "truthy_id (id_f (files ! k)) \<longleftrightarrow> id_f (files ! k) \<noteq> Undefined" if "k < length files" for k
    proof -
      from that have "files ! k \<in> set files" by simp
      with b show ?thesis by (auto simp: list_all_iff)
    qed
    from ids(3) have "\<forall>k<length files.
            id_f (rs ! k) =
              (if id_f (files ! k) = Undefined
               then Num (jobID st + length (filter (\<lambda>file. id_f file = Undefined) (take k files)))
               else id_f (files ! k))"
      by (simp add: tk un)
    with ids(1,2) filter_absent_ids[OF b] show ?thesis by simp
  qed
  from d encryptJob_ids[where ws=ws and options=options and files=files and st=st and rs=rs and st'=st']
    decryptJob_fallback_jobID[of decryptFile info files st]
  show ?thesis by blast
qed


theorem job_ids_assigned_witness:
  "encryptJob False None [ex_tagged_file, ex_file] ex_state = (Inr ex_encrypted, ex_state_encrypted)
   \<and> decryptJob True ex_decryptFile ex_info [ex_tagged_file, ex_file] ex_state
       = (Inr ex_decrypted, ex_state_decrypted)
   \<and> list_all (\<lambda>file. id_f file = Undefined \<or> truthy_id (id_f file)) [ex_tagged_file, ex_file]
   \<and> map id_f ex_encrypted = [Num 0, Num 1]
   \<and> jobID ex_state_encrypted = 2
   \<and> id_f (ex_decrypted ! 0) = Num 7
   \<and> id_f (ex_decrypted ! 1) = Num 0
   \<and> jobID ex_state_decrypted = 1"
proof -
  have h1: "encryptJob False None [ex_tagged_file, ex_file] ex_state = (Inr ex_encrypted, ex_state_encrypted)"
    by (simp add: encryptJob_def ex_encrypted_def ex_state_encrypted_def ex_tagged_file_def
        ex_file_def ex_state_def MAX_ALLOWED_SIZE_MAIN_THREAD_def)
  have h2: "decryptJob True ex_decryptFile ex_info [ex_tagged_file, ex_file] ex_state
       = (Inr ex_decrypted, ex_state_decrypted)"
    by (simp add: decryptJob_def Let_def ex_decrypted_def ex_state_decrypted_def ex_tagged_file_def
        ex_file_def ex_state_def eval_nat_numeral)
  have h3: "list_all (\<lambda>file. id_f file = Undefined \<or> truthy_id (id_f file)) [ex_tagged_file, ex_file]"
    by (simp add: ex_tagged_file_def ex_file_def)
  have s: "jobID ex_state = 0" by (simp add: ex_state_def)
  have i: "id_f ex_tagged_file = Num 7" "id_f ex_file = Undefined"
    by (simp_all add: ex_tagged_file_def ex_file_def)
  from h1 job_ids_assigned[of False None "[ex_tagged_file, ex_file]" ex_state ex_encrypted ex_state_encrypted]
  have a: "map id_f ex_encrypted = map Num [jobID ex_state ..< jobID ex_state + length [ex_tagged_file, ex_file]]"
    and b: "jobID ex_state_encrypted = jobID ex_state + length [ex_tagged_file, ex_file]"
    by blast+
  from h2 h3 job_ids_assigned[of True None "[ex_tagged_file, ex_file]" ex_state ex_decrypted ex_state_decrypted
                   ex_decryptFile ex_info]
  have c: "\<forall>k<length [ex_tagged_file, ex_file].
            id_f (ex_decrypted ! k) =
              (if id_f ([ex_tagged_file, ex_file] ! k) = Undefined
               then Num (jobID ex_state
                      + length (filter (\<lambda>file. id_f file = Undefined) (take k [ex_tagged_file, ex_file])))
               else id_f ([ex_tagged_file, ex_file] ! k))"
    and d: "jobID ex_state_decrypted
            = jobID ex_state + length (filter (\<lambda>file. id_f file = Undefined) [ex_tagged_file, ex_file])"
    by blast+
  from a have a': "map id_f ex_encrypted = [Num 0, Num 1]"
    by (simp add: s upt_conv_Cons del: upt_Suc)
  from b have b': "jobID ex_state_encrypted = 2" by (simp add: s)
  from c have "id_f (ex_decrypted ! 0) =
              (if id_f ([ex_tagged_file, ex_file] ! 0) = Undefined
               then Num (jobID ex_state
                      + length (filter (\<lambda>file. id_f file = Undefined) (take 0 [ex_tagged_file, ex_file])))
               else id_f ([ex_tagged_file, ex_file] ! 0))"
    by simp
  then have c0: "id_f (ex_decrypted ! 0) = Num 7" by (simp add: i)
  from c have "id_f (ex_decrypted ! 1) =
              (if id_f ([ex_tagged_file, ex_file] ! 1) = Undefined
               then Num (jobID ex_state
                      + length (filter (\<lambda>file. id_f file = Undefined) (take 1 [ex_tagged_file, ex_file])))
               else id_f ([ex_tagged_file, ex_file] ! 1))"
    by simp
  then have c1: "id_f (ex_decrypted ! 1) = Num 0" by (simp add: i s)
  from d have d': "jobID ex_state_decrypted = 1" by (simp add: s i)
  from h1 h2 h3 a' b' c0 c1 d' show ?thesis by blast
qed

text \<open>
  The public \<open>encrypt\<close> with a file that carries the id 7: the result
  carries the counter's value 0.
\<close>

theorem encrypt_replaces_supplied_id:
  "id_f ex_tagged_file = Num 7
   \<and> fst (encrypt True None [ex_tagged_file] ex_state)
       = Inr [Some (ex_tagged_file\<lparr>stream := ReadableStream (Remote 0), id_f := Num 0\<rparr>)]"
  by (simp add: encrypt_def api_call_def single_job_def encryptJob_def Let_def
      ex_tagged_file_def ex_file_def ex_state_def)

text \<open>
  \<^verbatim>\<open>file.id || jobID++\<close> also treats the id 0, which the counter itself
  hands out first, as absent.
\<close>

lemma decrypt_redraws_id_zero:
  "fst (decrypt True ex_decryptFile ex_info [ex_file\<lparr>id_f := Num 0\<rparr>] (ex_state\<lparr>jobID := 3\<rparr>))
     = Inr [Some (ex_file\<lparr>stream := ReadableStream (Remote 0), id_f := Num 3\<rparr>)]"
  by (simp add: decrypt_def api_call_def single_job_def decryptJob_def Let_def
      ex_file_def ex_state_def)

section \<open>Results in input order\<close>

lemma run_all_all2:
  "(\<And>x s. x \<in> set xs \<Longrightarrow> \<exists>v. fst (j x s) = Inr v \<and> P x v) \<Longrightarrow>
   \<exists>vs. Promise_all (fst (run_all (map j xs) st)) = Inr vs \<and> list_all2 P xs vs"
proof (induction xs arbitrary: st)
  case Nil
  then show ?case by simp
next
  case (Cons a xs)
  from Cons.prems[of a st] obtain v where v: "fst (j a st) = Inr v" "P a v" by auto
  from Cons.IH[of "snd (j a st)"] Cons.prems
  obtain vs where vs: "Promise_all (fst (run_all (map j xs) (snd (j a st)))) = Inr vs" "list_all2 P xs vs"
    by auto
  from v vs show ?case by (simp add: run_all_Cons del: run_all.simps(2))
qed

lemma api_call_all2:
  assumes "\<And>x s. x \<in> set xs \<Longrightarrow> \<exists>v. fst (single_job job x s) = Inr v \<and> P x v"
  shows "\<exists>vs. fst (api_call job xs st) = Inr vs \<and> length vs = length xs \<and> list_all2 P xs vs"
proof -
  from run_all_all2[of xs "single_job job" P st] assms
  obtain vs where "Promise_all (fst (run_all (map (single_job job) xs) st)) = Inr vs" "list_all2 P xs vs"
    by blast
  then show ?thesis by (auto simp: api_call_fst dest: list_all2_lengthD)
qed

lemma single_get_outcome:
  "ws \<or> url r \<noteq> None \<Longrightarrow>
   \<exists>g. fst (single_job (getJob ws pathname fetchAndDecrypt) r s) = Inr (Some g) \<and> resource_g g = r"
  by (auto simp: single_job_def getJob_def Let_def)

lemma Some_size_or_0: "truthy_size sz \<Longrightarrow> Some (size_or_0 sz) = sz"
  by (cases sz) simp_all

lemma single_encrypt_valid:
  assumes "\<not> instanceof_ArrayBuffer (stream f)" and "truthy_size (size_f f)"
    and "\<not> ws \<longrightarrow> size_or_0 (size_f f) \<le> MAX_ALLOWED_SIZE_MAIN_THREAD"
  shows "fst (single_job (encryptJob ws options) f s) =
           Inr (Some (if ws then f\<lparr>stream := ReadableStream (Remote (remoteStreams s)), id_f := Num (jobID s)\<rparr>
                      else spread_options options (f\<lparr>id_f := Num (jobID s)\<rparr>)))"
  using assms by (auto simp: single_job_def encryptJob_def Let_def Some_size_or_0)

lemma single_decrypt_valid:
  assumes "if ws then truthy_size (size_f f) else size_or_0 (size_f f) \<le> MAX_ALLOWED_SIZE_MAIN_THREAD"
  shows "fst (single_job (decryptJob ws decryptFile info) f s) =
           Inr (Some (if ws then f\<lparr>stream := ReadableStream (Remote (remoteStreams s)),
                                   id_f := (if truthy_id (id_f f) then id_f f else Num (jobID s))\<rparr>
                      else decryptFile info f (size_f f)))"
  using assms by (simp add: single_job_def decryptJob_def Let_def Some_size_or_0 split: if_splits)


text \<open>
  C1. For a non-empty batch of valid items each public operation fulfils
  with exactly as many results as there are items, none of them
  \<^verbatim>\<open>undefined\<close>, and the result at each position comes from the item at that
  position: for \<open>get\<close> it carries that resource; for \<open>encrypt\<close> it is that
  file with the readable end of a new remote stream and a job id (on the
  buffered path: that file with a job id and the options spread into it);
  for \<open>decrypt\<close> it is that file with the readable end of a new remote
  stream and its id (on the buffered path: what \<open>decryptFile\<close> returns for
  that file). An item is valid when the job of the operation accepts it: a
  resource needs a \<^verbatim>\<open>url\<close> on the buffered path; a file to encrypt needs a
  stream that is no \<^verbatim>\<open>ArrayBuffer\<close>, a truthy size and, on the buffered
  path, a size of at most 16 MiB; a file to decrypt needs a truthy size on
  the streaming path and a size of at most 16 MiB on the buffered path.
\<close>

theorem results_in_input_order:
  "(resources \<noteq> [] \<and> (\<not> ws \<longrightarrow> list_all (\<lambda>resource. url resource \<noteq> None) resources) \<longrightarrow>
      (\<exists>rs. fst (get ws pathname fetchAndDecrypt resources st) = Inr rs
         \<and> length rs = length resources
         \<and> list_all2 (\<lambda>resource r. \<exists>g. r = Some g \<and> resource_g g = resource) resources rs))
   \<and> (files \<noteq> []
       \<and> list_all (\<lambda>file. \<not> instanceof_ArrayBuffer (stream file) \<and> truthy_size (size_f file)
                     \<and> (\<not> ws \<longrightarrow> size_or_0 (size_f file) \<le> MAX_ALLOWED_SIZE_MAIN_THREAD)) files \<longrightarrow>
      (\<exists>rs. fst (encrypt ws options files st) = Inr rs
         \<and> length rs = length files
         \<and> list_all2 (\<lambda>file r. \<exists>k i. r = Some (if ws then file\<lparr>stream := ReadableStream (Remote k), id_f := Num i\<rparr>
                                                  else spread_options options (file\<lparr>id_f := Num i\<rparr>)))
              files rs))
   \<and> (files \<noteq> []
       \<and> list_all (\<lambda>file. if ws then truthy_size (size_f file)
                          else size_or_0 (size_f file) \<le> MAX_ALLOWED_SIZE_MAIN_THREAD) files \<longrightarrow>
      (\<exists>rs. fst (decrypt ws decryptFile info files st) = Inr rs
         \<and> length rs = length files
         \<and> list_all2 (\<lambda>file r. \<exists>k i. r = Some (if ws then file\<lparr>stream := ReadableStream (Remote k), id_f := i\<rparr>
                                                  else decryptFile info file (size_f file)))
              files rs))"
proof -
  have g: "\<exists>rs. fst (get ws pathname fetchAndDecrypt resources st) = Inr rs
         \<and> length rs = length resources
         \<and> list_all2 (\<lambda>resource r. \<exists>g. r = Some g \<and> resource_g g = resource) resources rs"
    if "\<not> ws \<longrightarrow> list_all (\<lambda>resource. url resource \<noteq> None) resources"
    unfolding get_def
  proof (rule api_call_all2)
    fix x s assume "x \<in> set resources"
    with that have "ws \<or> url x \<noteq> None" by (auto simp: list_all_iff)
    from single_get_outcome[OF this, of pathname fetchAndDecrypt s]
    show "\<exists>v. fst (single_job (getJob ws pathname fetchAndDecrypt) x s) = Inr v
              \<and> (\<exists>g. v = Some g \<and> resource_g g = x)"
      by blast
  qed
  have e: "\<exists>rs. fst (encrypt ws options files st) = Inr rs
         \<and> length rs = length files
         \<and> list_all2 (\<lambda>file r. \<exists>k i. r = Some (if ws then file\<lparr>stream := ReadableStream (Remote k), id_f := Num i\<rparr>
                                                  else spread_options options (file\<lparr>id_f := Num i\<rparr>)))
              files rs"
    if v: "list_all (\<lambda>file. \<not> instanceof_ArrayBuffer (stream file) \<and> truthy_size (size_f file)
                     \<and> (\<not> ws \<longrightarrow> size_or_0 (size_f file) \<le> MAX_ALLOWED_SIZE_MAIN_THREAD)) files"
    unfolding encrypt_def
  proof (rule api_call_all2)
    fix x s assume "x \<in> set files"
    with v have "\<not> instanceof_ArrayBuffer (stream x)" "truthy_size (size_f x)"
      "\<not> ws \<longrightarrow> size_or_0 (size_f x) \<le> MAX_ALLOWED_SIZE_MAIN_THREAD"
      by (auto simp: list_all_iff)
    from single_encrypt_valid[OF this, of options s]
    show "\<exists>v. fst (single_job (encryptJob ws options) x s) = Inr v
              \<and> (\<exists>k i. v = Some (if ws then x\<lparr>stream := ReadableStream (Remote k), id_f := Num i\<rparr>
                                  else spread_options options (x\<lparr>id_f := Num i\<rparr>)))"
      by blast
  qed
  have d: "\<exists>rs. fst (decrypt ws decryptFile info files st) = Inr rs
         \<and> length rs = length files
         \<and> list_all2 (\<lambda>file r. \<exists>k i. r = Some (if ws then file\<lparr>stream := ReadableStream (Remote k), id_f := i\<rparr>
                                                  else decryptFile info file (size_f file)))
              files rs"
    if v: "list_all (\<lambda>file. if ws then truthy_size (size_f file)
                          else size_or_0 (size_f file) \<le> MAX_ALLOWED_SIZE_MAIN_THREAD) files"
    unfolding decrypt_def
  proof (rule api_call_all2)
    fix x s assume "x \<in> set files"
    with v have "if ws then truthy_size (size_f x)
                 else size_or_0 (size_f x) \<le> MAX_ALLOWED_SIZE_MAIN_THREAD"
      by (auto simp: list_all_iff)
    from single_decrypt_valid[OF this, of decryptFile info s]
    show "\<exists>v. fst (single_job (decryptJob ws decryptFile info) x s) = Inr v
              \<and> (\<exists>k i. v = Some (if ws then x\<lparr>stream := ReadableStream (Remote k), id_f := i\<rparr>
                                  else decryptFile info x (size_f x)))"
      by blast
  qed
  from g e d show ?thesis by blast
qed


theorem results_in_input_order_witness:
  "[ex_resource, ex_resource\<lparr>url := None\<rparr>] \<noteq> []
   \<and> [ex_file, ex_tagged_file] \<noteq> []
   \<and> list_all (\<lambda>file. \<not> instanceof_ArrayBuffer (stream file) \<and> truthy_size (size_f file)
                   \<and> (\<not> True \<longrightarrow> size_or_0 (size_f file) \<le> MAX_ALLOWED_SIZE_MAIN_THREAD))
        [ex_file, ex_tagged_file]
   \<and> list_all (\<lambda>file. if True then truthy_size (size_f file)
                        else size_or_0 (size_f file) \<le> MAX_ALLOWED_SIZE_MAIN_THREAD)
        [ex_file, ex_tagged_file]
   \<and> (\<exists>rs. fst (get True ex_pathname ex_fetchAndDecrypt [ex_resource, ex_resource\<lparr>url := None\<rparr>]
                 ex_state) = Inr rs
         \<and> length rs = 2
         \<and> list_all2 (\<lambda>resource r. \<exists>g. r = Some g \<and> resource_g g = resource)
              [ex_resource, ex_resource\<lparr>url := None\<rparr>] rs)
   \<and> (\<exists>rs. fst (encrypt True None [ex_file, ex_tagged_file] ex_state) = Inr rs
         \<and> length rs = 2
         \<and> list_all2 (\<lambda>file r. \<exists>k i. r = Some (file\<lparr>stream := ReadableStream (Remote k),
                                                      id_f := Num i\<rparr>))
              [ex_file, ex_tagged_file] rs)
   \<and> (\<exists>rs. fst (decrypt True ex_decryptFile ex_info [ex_file, ex_tagged_file] ex_state) = Inr rs
         \<and> length rs = 2
         \<and> list_all2 (\<lambda>file r. \<exists>k i. r = Some (file\<lparr>stream := ReadableStream (Remote k),
                                                      id_f := i\<rparr>))
              [ex_file, ex_tagged_file] rs)"
proof -
  have h1: "[ex_resource, ex_resource\<lparr>url := None\<rparr>] \<noteq> []
            \<and> (\<not> True \<longrightarrow> list_all (\<lambda>resource. url resource \<noteq> None)
                               [ex_resource, ex_resource\<lparr>url := None\<rparr>])"
    by simp
  have h2: "[ex_file, ex_tagged_file] \<noteq> []
       \<and> list_all (\<lambda>file. \<not> instanceof_ArrayBuffer (stream file) \<and> truthy_size (size_f file)
                     \<and> (\<not> True \<longrightarrow> size_or_0 (size_f file) \<le> MAX_ALLOWED_SIZE_MAIN_THREAD))
          [ex_file, ex_tagged_file]"
    by (simp add: ex_file_def ex_tagged_file_def)
  have h3: "[ex_file, ex_tagged_file] \<noteq> []
       \<and> list_all (\<lambda>file. if True then truthy_size (size_f file)
                          else size_or_0 (size_f file) \<le> MAX_ALLOWED_SIZE_MAIN_THREAD)
          [ex_file, ex_tagged_file]"
    by (simp add: ex_file_def ex_tagged_file_def)
  note t = results_in_input_order[of "[ex_resource, ex_resource\<lparr>url := None\<rparr>]" True ex_pathname ex_fetchAndDecrypt
                 ex_state "[ex_file, ex_tagged_file]" None ex_decryptFile ex_info]
  from t h1 have g: "\<exists>rs. fst (get True ex_pathname ex_fetchAndDecrypt
                 [ex_resource, ex_resource\<lparr>url := None\<rparr>] ex_state) = Inr rs
         \<and> length rs = length [ex_resource, ex_resource\<lparr>url := None\<rparr>]
         \<and> list_all2 (\<lambda>resource r. \<exists>g. r = Some g \<and> resource_g g = resource)
              [ex_resource, ex_resource\<lparr>url := None\<rparr>] rs"
    by blast
  from t h2 have e: "\<exists>rs. fst (encrypt True None [ex_file, ex_tagged_file] ex_state) = Inr rs
         \<and> length rs = length [ex_file, ex_tagged_file]
         \<and> list_all2 (\<lambda>file r. \<exists>k i. r = Some (if True
                then file\<lparr>stream := ReadableStream (Remote k), id_f := Num i\<rparr>
                else spread_options None (file\<lparr>id_f := Num i\<rparr>)))
              [ex_file, ex_tagged_file] rs"
    by blast
  from t h3 have d: "\<exists>rs. fst (decrypt True ex_decryptFile ex_info [ex_file, ex_tagged_file] ex_state) = Inr rs
         \<and> length rs = length [ex_file, ex_tagged_file]
         \<and> list_all2 (\<lambda>file r. \<exists>k i. r = Some (if True
                then file\<lparr>stream := ReadableStream (Remote k), id_f := i\<rparr>
                else ex_decryptFile ex_info file (size_f file)))
              [ex_file, ex_tagged_file] rs"
    by blast
  from g have g': "\<exists>rs. fst (get True ex_pathname ex_fetchAndDecrypt
                 [ex_resource, ex_resource\<lparr>url := None\<rparr>] ex_state) = Inr rs
         \<and> length rs = 2
         \<and> list_all2 (\<lambda>resource r. \<exists>g. r = Some g \<and> resource_g g = resource)
              [ex_resource, ex_resource\<lparr>url := None\<rparr>] rs"
    by (simp add: numeral_2_eq_2)
  from e have e': "\<exists>rs. fst (encrypt True None [ex_file, ex_tagged_file] ex_state) = Inr rs
         \<and> length rs = 2
         \<and> list_all2 (\<lambda>file r. \<exists>k i. r = Some (file\<lparr>stream := ReadableStream (Remote k),
                                                      id_f := Num i\<rparr>))
              [ex_file, ex_tagged_file] rs"
    by (simp add: numeral_2_eq_2)
  from d have d': "\<exists>rs. fst (decrypt True ex_decryptFile ex_info [ex_file, ex_tagged_file] ex_state) = Inr rs
         \<and> length rs = 2
         \<and> list_all2 (\<lambda>file r. \<exists>k i. r = Some (file\<lparr>stream := ReadableStream (Remote k),
                                                      id_f := i\<rparr>))
              [ex_file, ex_tagged_file] rs"
    by (simp add: numeral_2_eq_2)
  from h1 h2 h3 g' e' d' show ?thesis by blast
qed

section \<open>Text or URI\<close>



















text \<open>
  Three files, two of them images, finishing in the order last, first,
  second.
\<close>

lemma getTextOrURI_example:
  "getTextOrURI ex_isViewableText [ex_image_file, ex_file, ex_image_file] [2, 0, 1] ex_blobs =
     ([Some \<lparr>type_t = Uri, data_t = ObjectURL 1, mimetype_t = ''image/png''\<rparr>,
       Some \<lparr>type_t = Text, data_t = TextOf (Bytes ''abcde''), mimetype_t = ''text/plain''\<rparr>,
       Some \<lparr>type_t = Uri, data_t = ObjectURL 0, mimetype_t = ''image/png''\<rparr>],
      \<lparr>blobCache = [0, 1], objectURLs = [Bytes ''abcde'', Bytes ''abcde'']\<rparr>)"
  by (simp add: getTextOrURI_def finish_def textOrURI_def Let_def ex_isViewableText_def
      ex_image_file_def ex_file_def ex_blobs_def numeral_3_eq_3 numeral_2_eq_2)

end
